theory Spec2Isabelle
  imports Complex_Main "HOL-Library.Word"
begin

section \<open>Strings and numbers of the source\<close>

text \<open>
  A JavaScript string is a sequence of UTF-16 code units. \<open>text.length\<close> and
  \<open>seed[i]\<close> count and index code units, while \<open>for (const char of text)\<close> walks the
  string by code points: a high surrogate followed by a low surrogate is one character of
  two code units, every other code unit is a character of its own.

  A JavaScript \<open>number\<close> is modelled as a \<open>real\<close>: arithmetic is exact, and the values
  \<open>NaN\<close> and \<open>Infinity\<close> do not exist in the model.
\<close>

type_synonym jsstring = "16 word list"

definition isHighSurrogate :: "16 word \<Rightarrow> bool" where
  "isHighSurrogate u = (0xD800 \<le> u \<and> u \<le> 0xDBFF)"

definition isLowSurrogate :: "16 word \<Rightarrow> bool" where
  "isLowSurrogate u = (0xDC00 \<le> u \<and> u \<le> 0xDFFF)"

text \<open>The characters that \<open>for (const char of text)\<close> yields, in order.\<close>

fun codePoints :: "jsstring \<Rightarrow> jsstring list" where
  "codePoints [] = []"
| "codePoints [u] = [[u]]"
| "codePoints (u # v # rest) =
     (if isHighSurrogate u \<and> isLowSurrogate v then [u, v] # codePoints rest
      else [u] # codePoints (v # rest))"

text \<open>
  \<open>String.prototype.toUpperCase\<close> belongs to the language, not to the repository. It
  upper-cases code point by code point with the full Unicode case mapping, which may
  replace one character by several. The table below is exact on the ASCII range and on
  the code points whose upper-cased form begins with a Latin capital letter (U+00DF,
  U+0131, U+017F, U+01F0, U+1E96 to U+1E9A, U+FB00 to U+FB06); any other character is
  returned as it is, where ECMAScript may return another character outside A to Z.
\<close>

definition toUpperCaseChar :: "jsstring \<Rightarrow> jsstring" where
  "toUpperCaseChar ch =
     (case ch of
        [u] \<Rightarrow>
          if 0x61 \<le> u \<and> u \<le> 0x7A then [u - 0x20]
          else if u = 0xDF then [0x53, 0x53]
          else if u = 0x131 then [0x49]
          else if u = 0x17F then [0x53]
          else if u = 0x1F0 then [0x4A, 0x30C]
          else if u = 0x1E96 then [0x48, 0x331]
          else if u = 0x1E97 then [0x54, 0x308]
          else if u = 0x1E98 then [0x57, 0x30A]
          else if u = 0x1E99 then [0x59, 0x30A]
          else if u = 0x1E9A then [0x41, 0x2BE]
          else if u = 0xFB00 then [0x46, 0x46]
          else if u = 0xFB01 then [0x46, 0x49]
          else if u = 0xFB02 then [0x46, 0x4C]
          else if u = 0xFB03 then [0x46, 0x46, 0x49]
          else if u = 0xFB04 then [0x46, 0x46, 0x4C]
          else if u = 0xFB05 then [0x53, 0x54]
          else if u = 0xFB06 then [0x53, 0x54]
          else [u]
      | _ \<Rightarrow> ch)"

definition toUpperCase :: "jsstring \<Rightarrow> jsstring" where
  "toUpperCase s = concat (map toUpperCaseChar (codePoints s))"

text \<open>\<open>s.charCodeAt(0)\<close>: the first code unit, an integer from 0 to 65535, or \<open>NaN\<close>
  (here \<open>None\<close>) on the empty string.\<close>

definition charCodeAt0 :: "jsstring \<Rightarrow> nat option" where
  "charCodeAt0 s = (case s of [] \<Rightarrow> None | u # _ \<Rightarrow> Some (unat u))"

text \<open>\<open>Math.round\<close> rounds to the nearest integer, a half upwards.\<close>

definition Math_round :: "real \<Rightarrow> real" where
  "Math_round x = of_int \<lfloor>x + 1 / 2\<rfloor>"

section \<open>The 52-integer system\<close>

definition DEFAULT_SEGMENT_LENGTH :: real where
  "DEFAULT_SEGMENT_LENGTH = 10"

text \<open>\<open>getDegreeForChar\<close>: \<open>null\<close> is \<open>None\<close>. A comparison with \<open>NaN\<close> is false, so the
  empty string gives \<open>null\<close>. The subtraction \<open>code - 65\<close> runs only when \<open>code\<close> is at
  least 65.\<close>

definition getDegreeForChar :: "jsstring \<Rightarrow> real option" where
  "getDegreeForChar ch =
     (case charCodeAt0 (toUpperCase ch) of
        None \<Rightarrow> None
      | Some code \<Rightarrow>
          if code \<ge> 65 \<and> code \<le> 90 then
            (let letterIndex = code - 65;
                 degreeIndex = letterIndex * 2
             in Some (Math_round ((real degreeIndex * 360) / 52)))
          else None)"

text \<open>The angle the specification gives to the letter of index \<open>i\<close>.\<close>

definition spec_angle :: "nat \<Rightarrow> int" where
  "spec_angle i = round (2 * real i * 360 / 52)"

text \<open>\<open>calculateNextPoint\<close>: the returned object \<open>{x, y}\<close> is a pair.\<close>

definition calculateNextPoint :: "real \<Rightarrow> real \<Rightarrow> real \<Rightarrow> real \<Rightarrow> real \<times> real" where
  "calculateNextPoint x y degree len =
     (let radians = (degree * pi) / 180
      in (x + len * cos radians, y - len * sin radians))"

section \<open>The path generator\<close>

text \<open>The interface \<open>Point\<close> of the source; the fields carry the record's name as a
  prefix, because \<open>Layer\<close> has fields \<open>x\<close> and \<open>y\<close> too.\<close>

record Point =
  point_x :: real
  point_y :: real
  point_char :: jsstring
  point_angle :: real
  point_isSpace :: bool

text \<open>The path descriptor \<open>pathD\<close> is a string of commands \<open>M x y\<close> and \<open>L x y\<close>; the
  model keeps the commands and leaves the printing of the numbers out.\<close>

datatype command = MoveTo real real | LineTo real real

record Bounds =
  bounds_minX :: real
  bounds_maxX :: real
  bounds_minY :: real
  bounds_maxY :: real
  bounds_width :: real
  bounds_height :: real

record PathResult =
  pathData :: "command list"
  points :: "Point list"
  endPoint :: "real \<times> real"
  bounds :: Bounds

text \<open>The local variables of \<open>generatePathData\<close> that its loop updates.\<close>

record GenState =
  calculatedPoints :: "Point list"
  currentX :: real
  currentY :: real
  currentAngle :: real
  pathD :: "command list"
  min_x :: real
  max_x :: real
  min_y :: real
  max_y :: real

definition SPACE :: jsstring where
  "SPACE = [0x20]"

text \<open>The state before the loop: the start point is pushed, the path begins with
  \<open>M 0 0\<close>, the extrema are 0.\<close>

definition genInit :: GenState where
  "genInit =
     \<lparr>calculatedPoints =
        [\<lparr>point_x = 0, point_y = 0, point_char = [], point_angle = 0, point_isSpace = False\<rparr>],
      currentX = 0, currentY = 0, currentAngle = 0,
      pathD = [MoveTo 0 0],
      min_x = 0, max_x = 0, min_y = 0, max_y = 0\<rparr>"

text \<open>The part of the loop body after the heading is settled.\<close>

definition genEmit :: "real \<Rightarrow> GenState \<Rightarrow> jsstring \<Rightarrow> bool \<Rightarrow> real \<Rightarrow> GenState" where
  "genEmit segmentLength s ch isSpace newAngle =
     (let next = calculateNextPoint (currentX s) (currentY s) newAngle segmentLength;
          nx = fst next;
          ny = snd next
      in \<lparr>calculatedPoints = calculatedPoints s @
             [\<lparr>point_x = nx, point_y = ny, point_char = ch, point_angle = newAngle,
               point_isSpace = isSpace\<rparr>],
          currentX = nx, currentY = ny, currentAngle = newAngle,
          pathD = pathD s @ [if isSpace then MoveTo nx ny else LineTo nx ny],
          min_x = min (min_x s) nx, max_x = max (max_x s) nx,
          min_y = min (min_y s) ny, max_y = max (max_y s) ny\<rparr>)"

text \<open>One turn of the loop \<open>for (const char of text)\<close>; \<open>continue\<close> leaves the state as
  it is.\<close>

definition genStep :: "real \<Rightarrow> GenState \<Rightarrow> jsstring \<Rightarrow> GenState" where
  "genStep segmentLength s ch =
     (let isSpace = (ch = SPACE)
      in if \<not> isSpace then
           (case getDegreeForChar ch of
              Some degree \<Rightarrow> genEmit segmentLength s ch isSpace (currentAngle s + degree)
            | None \<Rightarrow> s)
         else genEmit segmentLength s ch isSpace (currentAngle s))"

definition genLoop :: "real \<Rightarrow> jsstring \<Rightarrow> GenState" where
  "genLoop segmentLength text = foldl (genStep segmentLength) genInit (codePoints text)"

text \<open>\<open>generatePathData\<close>. The default of \<open>segmentLength\<close> is
  \<open>DEFAULT_SEGMENT_LENGTH\<close>; every call in the repository passes the argument.\<close>

definition generatePathData :: "jsstring \<Rightarrow> real \<Rightarrow> PathResult" where
  "generatePathData text segmentLength =
     (let s = genLoop segmentLength text
      in \<lparr>pathData = pathD s,
          points = calculatedPoints s,
          endPoint = (currentX s, currentY s),
          bounds = \<lparr>bounds_minX = min_x s, bounds_maxX = max_x s,
                    bounds_minY = min_y s, bounds_maxY = max_y s,
                    bounds_width = max_x s - min_x s,
                    bounds_height = max_y s - min_y s\<rparr>\<rparr>)"


text \<open>The characters the specification calls valid: a space, or a letter from A to Z in
  either case.\<close>

definition spec_valid :: "jsstring \<Rightarrow> bool" where
  "spec_valid ch =
     (case ch of
        [u] \<Rightarrow> u = 0x20 \<or> (0x41 \<le> u \<and> u \<le> 0x5A) \<or> (0x61 \<le> u \<and> u \<le> 0x7A)
      | _ \<Rightarrow> False)"

text \<open>The characters for which the loop body emits a point.\<close>

definition emits :: "jsstring \<Rightarrow> bool" where
  "emits ch = (ch = SPACE \<or> getDegreeForChar ch \<noteq> None)"

section \<open>The canvas: camera state and pointer events\<close>

text \<open>The state \<open>viewBox\<close> is the string \<open>"x y w h"\<close>; every handler splits it into four
  numbers and prints four numbers back, so the model keeps the four numbers.\<close>

record ViewBox =
  vb_x :: real
  vb_y :: real
  vb_w :: real
  vb_h :: real

record PanState =
  pan_startX :: real
  pan_startY :: real
  startViewBox :: ViewBox

record DragState =
  drag_id :: string
  drag_startX :: real
  drag_startY :: real

record Canvas =
  dragState :: "DragState option"
  panState :: "PanState option"
  viewBox :: ViewBox
  isAutoFit :: bool

text \<open>What a handler reads from the rendered \<open>svg\<close> element: the size of its bounding
  rectangle, and the scale factors \<open>a\<close> and \<open>d\<close> of its screen transform when it has
  one.\<close>

record Svg =
  rect_width :: real
  rect_height :: real
  ctm :: "(real \<times> real) option"

definition canvasInit :: Canvas where
  "canvasInit =
     \<lparr>dragState = None, panState = None,
      viewBox = \<lparr>vb_x = -50, vb_y = -50, vb_w = 100, vb_h = 100\<rparr>,
      isAutoFit = True\<rparr>"

definition handleWheel :: "real \<Rightarrow> Canvas \<Rightarrow> Canvas" where
  "handleWheel deltaY c =
     (let v = viewBox c;
          zoomFactor = (if deltaY > 0 then 1.1 else 0.9);
          newW = vb_w v * zoomFactor;
          newH = vb_h v * zoomFactor;
          dx = (vb_w v - newW) / 2;
          dy = (vb_h v - newH) / 2
      in c\<lparr>isAutoFit := False,
           viewBox := \<lparr>vb_x = vb_x v + dx, vb_y = vb_y v + dy, vb_w = newW, vb_h = newH\<rparr>\<rparr>)"

definition zoomInClick :: "Canvas \<Rightarrow> Canvas" where
  "zoomInClick c =
     (let v = viewBox c
      in c\<lparr>isAutoFit := False,
           viewBox := \<lparr>vb_x = vb_x v + vb_w v * 0.1, vb_y = vb_y v + vb_h v * 0.1,
                       vb_w = vb_w v * 0.8, vb_h = vb_h v * 0.8\<rparr>\<rparr>)"

definition zoomOutClick :: "Canvas \<Rightarrow> Canvas" where
  "zoomOutClick c =
     (let v = viewBox c
      in c\<lparr>isAutoFit := False,
           viewBox := \<lparr>vb_x = vb_x v - vb_w v * 0.1, vb_y = vb_y v - vb_h v * 0.1,
                       vb_w = vb_w v * 1.2, vb_h = vb_h v * 1.2\<rparr>\<rparr>)"

text \<open>\<open>handleMouseDown\<close> on the canvas background: the button number, the Alt key and
  the pointer position of the event.\<close>

definition handleMouseDown :: "nat \<Rightarrow> bool \<Rightarrow> real \<Rightarrow> real \<Rightarrow> Canvas \<Rightarrow> Canvas" where
  "handleMouseDown button altKey clientX clientY c =
     (if button = 1 \<or> button = 2 \<or> (button = 0 \<and> altKey) then
        c\<lparr>isAutoFit := False,
          panState := Some \<lparr>pan_startX = clientX, pan_startY = clientY,
                            startViewBox = viewBox c\<rparr>\<rparr>
      else c)"

text \<open>\<open>handleGlobalMouseMove\<close>: the new canvas state and the call of \<open>onLayerMove\<close>, if
  one is made. The \<open>svg\<close> argument is what \<open>querySelector\<close> finds.\<close>

definition handleGlobalMouseMove ::
  "real \<Rightarrow> real \<Rightarrow> Svg option \<Rightarrow> Canvas \<Rightarrow> Canvas \<times> (string \<times> real \<times> real) option" where
  "handleGlobalMouseMove clientX clientY svg c =
     (case panState c of
        Some ps \<Rightarrow>
          (let dxPx = clientX - pan_startX ps;
               dyPx = clientY - pan_startY ps
           in case svg of
                None \<Rightarrow> (c, None)
              | Some sv \<Rightarrow>
                  (let v = startViewBox ps;
                       scaleX = vb_w v / rect_width sv;
                       scaleY = vb_h v / rect_height sv;
                       newVx = vb_x v - (dxPx * scaleX);
                       newVy = vb_y v - (dyPx * scaleY)
                   in (c\<lparr>viewBox := \<lparr>vb_x = newVx, vb_y = newVy, vb_w = vb_w v, vb_h = vb_h v\<rparr>\<rparr>,
                       None)))
      | None \<Rightarrow>
          (case dragState c of
             Some ds \<Rightarrow>
               (let dx = clientX - drag_startX ds;
                    dy = clientY - drag_startY ds;
                    move = (case svg of
                              None \<Rightarrow> None
                            | Some sv \<Rightarrow>
                                (case ctm sv of
                                   None \<Rightarrow> None
                                 | Some (a, d) \<Rightarrow> Some (drag_id ds, dx / a, dy / d)))
                in (c\<lparr>dragState := Some (ds\<lparr>drag_startX := clientX, drag_startY := clientY\<rparr>)\<rparr>,
                    move))
           | None \<Rightarrow> (c, None)))"

definition handleGlobalMouseUp :: "Canvas \<Rightarrow> Canvas" where
  "handleGlobalMouseUp c = c\<lparr>panState := None, dragState := None\<rparr>"

section \<open>The application: layers and the loop\<close>

record Layer =
  layer_id :: string
  layer_name :: string
  layer_text :: jsstring
  layer_color :: string
  layer_x :: real
  layer_y :: real
  layer_locked :: bool
  layer_visible :: bool
  layer_segmentLength :: real

text \<open>The state of \<open>App\<close> that the loop reads and writes: the three \<open>useState\<close> values
  and the three refs. The interval handle is a positive integer, \<open>null\<close> is \<open>None\<close>.\<close>

record App =
  layers :: "Layer list"
  activeLayerId :: string
  isLooping :: bool
  loopIntervalRef :: "nat option"
  loopSeedRef :: jsstring
  loopIndexRef :: nat

text \<open>\<open>layers.find(l => l.id === activeLayerId) || layers[0]\<close>; \<open>undefined\<close> is \<open>None\<close>.\<close>

definition activeLayer :: "App \<Rightarrow> Layer option" where
  "activeLayer a =
     (case find (\<lambda>l. layer_id l = activeLayerId a) (layers a) of
        Some l \<Rightarrow> Some l
      | None \<Rightarrow> (case layers a of [] \<Rightarrow> None | l # _ \<Rightarrow> Some l))"

definition startLoop :: "App \<Rightarrow> App" where
  "startLoop a =
     (case activeLayer a of
        None \<Rightarrow> a
      | Some al \<Rightarrow>
          if isLooping a then a
          else a\<lparr>loopSeedRef := layer_text al, loopIndexRef := 0, isLooping := True\<rparr>)"

definition stopLoop :: "App \<Rightarrow> App" where
  "stopLoop a =
     (let a1 = a\<lparr>isLooping := False\<rparr>
      in case loopIntervalRef a1 of
           Some h \<Rightarrow> a1\<lparr>loopIntervalRef := None\<rparr>
         | None \<Rightarrow> a1)"

text \<open>The button of the loop controls as it is rendered: nothing without an active
  layer, "Play Loop" when no loop runs, disabled on an empty text, and "Stop"
  otherwise. A click on a disabled button calls no handler.\<close>

definition loopButtonClick :: "App \<Rightarrow> App" where
  "loopButtonClick a =
     (case activeLayer a of
        None \<Rightarrow> a
      | Some al \<Rightarrow>
          if \<not> isLooping a then (if layer_text al = [] then a else startLoop a)
          else stopLoop a)"

text \<open>The callback that \<open>setInterval\<close> runs every 15 ms, with the update of \<open>layers\<close>
  applied at once.\<close>

definition loopTick :: "App \<Rightarrow> App" where
  "loopTick a =
     (let seed = loopSeedRef a
      in if seed = [] then a
         else
           (let charToAdd = [seed ! (loopIndexRef a mod length seed)];
                a1 = a\<lparr>loopIndexRef := loopIndexRef a + 1\<rparr>
            in case find (\<lambda>l. layer_id l = activeLayerId a) (layers a) of
                 None \<Rightarrow> a1
               | Some currentLayer \<Rightarrow>
                   (let newText = layer_text currentLayer @ charToAdd;
                        r = generatePathData newText (layer_segmentLength currentLayer);
                        dist = sqrt ((fst (endPoint r))\<^sup>2 + (snd (endPoint r))\<^sup>2);
                        minLen = max (length seed * 4) 40
                    in if length newText > minLen \<and> dist < 0.5 then
                         (let a2 = stopLoop a1;
                              cx = bounds_minX (bounds r) + bounds_width (bounds r) / 2;
                              cy = bounds_minY (bounds r) + bounds_height (bounds r) / 2
                          in a2\<lparr>layers :=
                                  map (\<lambda>l. if layer_id l = activeLayerId a
                                           then l\<lparr>layer_text := newText, layer_x := - cx,
                                                  layer_y := - cy\<rparr>
                                           else l) (layers a)\<rparr>)
                       else
                         (let a2 = (if length newText > 8000 then stopLoop a1 else a1)
                          in a2\<lparr>layers :=
                                  map (\<lambda>l. if layer_id l = activeLayerId a
                                           then l\<lparr>layer_text := newText\<rparr>
                                           else l) (layers a)\<rparr>))))"

text \<open>\<open>n\<close> firings of the timer.\<close>

fun ticks :: "nat \<Rightarrow> App \<Rightarrow> App" where
  "ticks 0 a = a"
| "ticks (Suc n) a = ticks n (loopTick a)"

text \<open>The effect on \<open>isLooping\<close> and \<open>activeLayerId\<close> installs the interval when a loop
  runs and there is an active layer, and clears it otherwise; a firing of the timer runs
  the callback only in such a state.\<close>

definition timerFires :: "App \<Rightarrow> App" where
  "timerFires a = (if isLooping a \<and> activeLayer a \<noteq> None then loopTick a else a)"

fun timerRuns :: "nat \<Rightarrow> App \<Rightarrow> App" where
  "timerRuns 0 a = a"
| "timerRuns (Suc n) a = timerRuns n (timerFires a)"

text \<open>The state \<open>App\<close> starts in.\<close>

definition baseLayer :: Layer where
  "baseLayer =
     \<lparr>layer_id = ''1'', layer_name = ''Base Layer'',
      layer_text = [0x48, 0x65, 0x6C, 0x6C, 0x6F, 0x20, 0x57, 0x6F, 0x72, 0x6C, 0x64],
      layer_color = ''#1e293b'', layer_x = 0, layer_y = 0, layer_locked = False,
      layer_visible = True, layer_segmentLength = DEFAULT_SEGMENT_LENGTH\<rparr>"

definition appInit :: App where
  "appInit =
     \<lparr>layers = [baseLayer], activeLayerId = ''1'', isLooping = False,
      loopIntervalRef = None, loopSeedRef = [], loopIndexRef = 0\<rparr>"

section \<open>The letter angles\<close>

lemma Math_round_letter:
  "Math_round ((real (i * 2) * 360) / 52) = of_int ((int i * 720 + 26) div 52)"
proof -
  have "(real (i * 2) * 360) / 52 + 1 / 2 = real_of_int (int i * 720 + 26) / real_of_int 52"
    by (simp add: field_simps)
  then have "\<lfloor>(real (i * 2) * 360) / 52 + 1 / 2\<rfloor> = (int i * 720 + 26) div 52"
    by (simp only: floor_divide_of_int_eq)
  then show ?thesis by (simp add: Math_round_def)
qed

lemma toUpperCase_capital:
  assumes "0x41 \<le> u" "u \<le> 0x5A"
  shows "toUpperCase [u] = [u]"
  using assms
  by (auto simp add: toUpperCase_def toUpperCaseChar_def word_le_nat_alt)

lemma toUpperCase_small:
  assumes "0x41 \<le> u" "u \<le> 0x5A"
  shows "toUpperCase [u + 0x20] = [u]"
  using assms
  by (auto simp add: toUpperCase_def toUpperCaseChar_def word_le_nat_alt unat_word_ariths)

text \<open>Whatever the character, when its upper-cased form begins with a code unit from 65
  to 90, the angle is computed from that code unit.\<close>

lemma getDegree_of_upper:
  assumes "toUpperCase ch = u # rest" "0x41 \<le> u" "u \<le> 0x5A"
  shows "getDegreeForChar ch = Some (real_of_int ((int (unat u - 65) * 720 + 26) div 52))"
proof -
  have b: "65 \<le> unat u" "unat u \<le> 90"
    using assms(2,3) by (simp_all add: word_le_nat_alt)
  have c: "charCodeAt0 (toUpperCase ch) = Some (unat u)"
    by (simp add: assms(1) charCodeAt0_def)
  have "getDegreeForChar ch = Some (Math_round ((real ((unat u - 65) * 2) * 360) / 52))"
    unfolding getDegreeForChar_def c Let_def using b by simp
  then show ?thesis
    by (simp only: Math_round_letter)
qed

lemma spec_angle_div: "spec_angle i = (int i * 720 + 26) div 52"
proof -
  have "2 * real i * 360 / 52 + 1 / 2 = real_of_int (int i * 720 + 26) / real_of_int 52"
    by (simp add: field_simps)
  then show ?thesis
    unfolding spec_angle_def round_def by (simp only: floor_divide_of_int_eq)
qed

lemma spec_angle_mono: "i < j \<Longrightarrow> spec_angle i < spec_angle j"
  unfolding spec_angle_div by linarith

text \<open>
  C5. For a capital letter with code unit \<open>u\<close> (65 to 90, index \<open>u - 65\<close>) and for its small
  letter \<open>u + 32\<close>, \<open>getDegreeForChar\<close> returns \<open>round (2 * index * 360 / 52)\<close>; the angle of
  A is 0, the angle of Z is 346, and of two capital letters the later one has the
  strictly larger angle.
\<close>

theorem getDegreeForChar_letter:
  assumes "0x41 \<le> u" "u \<le> 0x5A" "0x41 \<le> v" "v \<le> 0x5A"
  shows "getDegreeForChar [u] = Some (real_of_int (spec_angle (unat u - 65)))
       \<and> getDegreeForChar [u + 0x20] = Some (real_of_int (spec_angle (unat u - 65)))
       \<and> getDegreeForChar [0x41] = Some 0
       \<and> getDegreeForChar [0x5A] = Some 346
       \<and> (u < v \<longrightarrow>
            (\<exists>a b. getDegreeForChar [u] = Some a \<and> getDegreeForChar [v] = Some b \<and> a < b))"
proof -
  have 1: "getDegreeForChar [u] = Some (real_of_int (spec_angle (unat u - 65)))"
    using getDegree_of_upper [OF toUpperCase_capital [OF assms(1,2)] assms(1,2)]
    by (simp only: spec_angle_div)
  have 2: "getDegreeForChar [u + 0x20] = Some (real_of_int (spec_angle (unat u - 65)))"
    using getDegree_of_upper [OF toUpperCase_small [OF assms(1,2)] assms(1,2)]
    by (simp only: spec_angle_div)
  have 3: "getDegreeForChar [v] = Some (real_of_int (spec_angle (unat v - 65)))"
    using getDegree_of_upper [OF toUpperCase_capital [OF assms(3,4)] assms(3,4)]
    by (simp only: spec_angle_div)
  have 4: "getDegreeForChar [0x41] = Some 0"
    by (simp add: getDegreeForChar_def toUpperCase_def toUpperCaseChar_def charCodeAt0_def
        Math_round_def)
  have 5: "getDegreeForChar [0x5A] = Some 346"
    by (simp add: getDegreeForChar_def toUpperCase_def toUpperCaseChar_def charCodeAt0_def
        Math_round_def)
  have 6: "spec_angle (unat u - 65) < spec_angle (unat v - 65)" if "u < v"
  proof -
    have "unat u < unat v" using that by (simp add: word_less_nat_alt)
    moreover have "65 \<le> unat u" using assms(1) by (simp add: word_le_nat_alt)
    ultimately show ?thesis by (intro spec_angle_mono) linarith
  qed
  show ?thesis using 1 2 3 4 5 6 by simp
qed

theorem getDegreeForChar_letter_witness:
  "(0x41 :: 16 word) \<le> 0x42 \<and> (0x42 :: 16 word) \<le> 0x5A
    \<and> (0x41 :: 16 word) \<le> 0x43 \<and> (0x43 :: 16 word) \<le> 0x5A
    \<and> getDegreeForChar [0x42] = Some 14 \<and> getDegreeForChar [0x62] = Some 14
    \<and> getDegreeForChar [0x43] = Some 28 \<and> spec_angle 1 = 14"
  using getDegreeForChar_letter [of "0x42" "0x43"]
  by (simp add: spec_angle_div getDegreeForChar_def toUpperCase_def toUpperCaseChar_def
      charCodeAt0_def Math_round_def)

section \<open>Properties of the path generator\<close>

lemma genStep_skip: "\<not> emits ch \<Longrightarrow> genStep L s ch = s"
  by (simp add: genStep_def emits_def)

lemma genStep_emit:
  "emits ch \<Longrightarrow> \<exists>a. genStep L s ch = genEmit L s ch (ch = SPACE) a"
  by (cases "ch = SPACE") (auto simp add: genStep_def emits_def Let_def)

lemma genStep_space: "genStep L s SPACE = genEmit L s SPACE True (currentAngle s)"
  by (simp add: genStep_def)

lemma foldl_genStep_invariant:
  assumes "P (s :: GenState)" and "\<And>t ch a. P t \<Longrightarrow> P (genEmit L t ch (ch = SPACE) a)"
  shows "P (foldl (genStep L) s chs)"
  using assms(1)
proof (induction chs arbitrary: s)
  case Nil
  then show ?case by simp
next
  case (Cons ch chs)
  have "P (genStep L s ch)"
  proof (cases "emits ch")
    case True
    then obtain a where "genStep L s ch = genEmit L s ch (ch = SPACE) a"
      using genStep_emit by blast
    then show ?thesis using assms(2) Cons.prems by simp
  next
    case False
    then show ?thesis using Cons.prems by (simp add: genStep_skip)
  qed
  then show ?case using Cons.IH by simp
qed

lemma genLoop_origin_inside:
  "min_x (genLoop L text) \<le> 0 \<and> 0 \<le> max_x (genLoop L text)
   \<and> min_y (genLoop L text) \<le> 0 \<and> 0 \<le> max_y (genLoop L text)"
  unfolding genLoop_def
  by (rule foldl_genStep_invariant) (auto simp add: genInit_def genEmit_def Let_def)

lemma genLoop_extrema:
  "calculatedPoints (genLoop L text) \<noteq> []
   \<and> min_x (genLoop L text) = Min (point_x ` set (calculatedPoints (genLoop L text)))
   \<and> max_x (genLoop L text) = Max (point_x ` set (calculatedPoints (genLoop L text)))
   \<and> min_y (genLoop L text) = Min (point_y ` set (calculatedPoints (genLoop L text)))
   \<and> max_y (genLoop L text) = Max (point_y ` set (calculatedPoints (genLoop L text)))"
  unfolding genLoop_def
proof (rule foldl_genStep_invariant)
  show "calculatedPoints genInit \<noteq> []
   \<and> min_x genInit = Min (point_x ` set (calculatedPoints genInit))
   \<and> max_x genInit = Max (point_x ` set (calculatedPoints genInit))
   \<and> min_y genInit = Min (point_y ` set (calculatedPoints genInit))
   \<and> max_y genInit = Max (point_y ` set (calculatedPoints genInit))"
    by (simp add: genInit_def)
next
  fix t :: GenState and ch :: jsstring and a :: real
  assume inv: "calculatedPoints t \<noteq> []
   \<and> min_x t = Min (point_x ` set (calculatedPoints t))
   \<and> max_x t = Max (point_x ` set (calculatedPoints t))
   \<and> min_y t = Min (point_y ` set (calculatedPoints t))
   \<and> max_y t = Max (point_y ` set (calculatedPoints t))"
  let ?t = "genEmit L t ch (ch = SPACE) a"
  have ne: "point_x ` set (calculatedPoints t) \<noteq> {}" "point_y ` set (calculatedPoints t) \<noteq> {}"
    using inv by simp_all
  show "calculatedPoints ?t \<noteq> []
   \<and> min_x ?t = Min (point_x ` set (calculatedPoints ?t))
   \<and> max_x ?t = Max (point_x ` set (calculatedPoints ?t))
   \<and> min_y ?t = Min (point_y ` set (calculatedPoints ?t))
   \<and> max_y ?t = Max (point_y ` set (calculatedPoints ?t))"
    using inv ne by (simp add: genEmit_def Let_def min.commute max.commute)
qed

lemma foldl_genStep_skips:
  "\<forall>ch \<in> set chs. \<not> emits ch \<Longrightarrow> foldl (genStep L) s chs = s"
  by (induction chs arbitrary: s) (simp_all add: genStep_skip)

lemma genEmit_points_length:
  "length (calculatedPoints (genEmit L s ch b a)) = Suc (length (calculatedPoints s))"
  by (simp add: genEmit_def Let_def)

lemma foldl_genStep_points_length:
  "length (calculatedPoints (foldl (genStep L) s chs))
     = length (calculatedPoints s) + length (filter emits chs)"
proof (induction chs arbitrary: s)
  case Nil
  then show ?case by simp
next
  case (Cons ch chs)
  show ?case
  proof (cases "emits ch")
    case True
    then obtain a where "genStep L s ch = genEmit L s ch (ch = SPACE) a"
      using genStep_emit by blast
    then show ?thesis using True Cons.IH by (simp add: genEmit_points_length)
  next
    case False
    then show ?thesis using Cons.IH by (simp add: genStep_skip)
  qed
qed

lemma points_length:
  "length (points (generatePathData text L)) = 1 + length (filter emits (codePoints text))"
  by (simp add: generatePathData_def genLoop_def Let_def foldl_genStep_points_length genInit_def)

lemma codePoints_split:
  assumes "\<not> isHighSurrogate w" "\<not> isLowSurrogate w"
  shows "codePoints (pre @ w # post) = codePoints pre @ [w] # codePoints post"
proof (induction pre rule: codePoints.induct)
  case 1
  show ?case using assms by (cases post) simp_all
next
  case (2 u)
  have "codePoints (w # post) = [w] # codePoints post"
    using assms by (cases post) simp_all
  then show ?case using assms by simp
next
  case (3 u v rest)
  then show ?case by simp
qed

lemmas gen_eval = generatePathData_def genLoop_def genStep_def genEmit_def genInit_def SPACE_def
  calculateNextPoint_def getDegreeForChar_def toUpperCase_def toUpperCaseChar_def charCodeAt0_def
  Math_round_def Let_def isHighSurrogate_def isLowSurrogate_def

lemma codePoints_ascii:
  "\<forall>u \<in> set t. u < 0x80 \<Longrightarrow> codePoints t = map (\<lambda>u. [u]) t"
proof (induction t rule: codePoints.induct)
  case 1
  then show ?case by simp
next
  case (2 u)
  then show ?case by simp
next
  case (3 u v rest)
  have "\<not> isHighSurrogate u"
    using "3.prems" by (auto simp add: isHighSurrogate_def word_le_nat_alt word_less_nat_alt)
  then show ?case using 3 by simp
qed

lemma emits_ascii: "u < 0x80 \<Longrightarrow> emits [u] = spec_valid [u]"
  by (auto simp add: emits_def spec_valid_def gen_eval word_le_nat_alt word_less_nat_alt
      unat_sub split: if_splits)

lemma points_length_ascii:
  assumes "\<forall>u \<in> set t. u < 0x80"
  shows "length (points (generatePathData t L)) = 1 + length (filter spec_valid (codePoints t))"
proof -
  have "filter emits (map (\<lambda>u. [u]) t) = filter spec_valid (map (\<lambda>u. [u]) t)"
    using assms by (intro filter_cong) (auto simp add: emits_ascii)
  then show ?thesis
    by (simp add: points_length codePoints_ascii [OF assms])
qed

lemma genLoop_no_emit:
  "\<forall>u \<in> set t. u < 0x80 \<and> \<not> spec_valid [u] \<Longrightarrow> genLoop L t = genInit"
  unfolding genLoop_def
  by (rule foldl_genStep_skips) (auto simp add: codePoints_ascii emits_ascii)

text \<open>
  C9. For every text and segment length the bounds of \<open>generatePathData\<close> contain the
  origin, \<open>minX \<le> 0 \<le> maxX\<close> and \<open>minY \<le> 0 \<le> maxY\<close>, and the width and the height are not
  negative. The text AA with segment length 5 emits the points (5, 0) and (10, 0), both
  strictly to the right of the origin, and \<open>minX\<close> is 0 all the same.
\<close>

theorem bounds_contain_origin:
  "bounds_minX (bounds (generatePathData text L)) \<le> 0
   \<and> 0 \<le> bounds_maxX (bounds (generatePathData text L))
   \<and> bounds_minY (bounds (generatePathData text L)) \<le> 0
   \<and> 0 \<le> bounds_maxY (bounds (generatePathData text L))
   \<and> 0 \<le> bounds_width (bounds (generatePathData text L))
   \<and> 0 \<le> bounds_height (bounds (generatePathData text L))
   \<and> map point_x (tl (points (generatePathData [0x41, 0x41] 5))) = [5, 10]
   \<and> bounds_minX (bounds (generatePathData [0x41, 0x41] 5)) = 0"
proof -
  have "map point_x (tl (points (generatePathData [0x41, 0x41] 5))) = [5, 10]"
    by (simp add: gen_eval)
  moreover have "bounds_minX (bounds (generatePathData [0x41, 0x41] 5)) = 0"
    by (simp add: gen_eval)
  ultimately show ?thesis
    using genLoop_origin_inside [of L "text"]
    by (simp add: generatePathData_def Let_def)
qed

text \<open>
  C1, as stated, fails. The text A with segment length 10 emits the single point (10, 0);
  the minimum over the emitted points is 10, and \<open>bounds.minX\<close> is 0.
\<close>

theorem bounds_emitted_only_counterexample:
  "map point_x (tl (points (generatePathData [0x41] 10))) = [10]
   \<and> bounds_minX (bounds (generatePathData [0x41] 10)) = 0
   \<and> bounds_minX (bounds (generatePathData [0x41] 10))
       \<noteq> Min (point_x ` set (tl (points (generatePathData [0x41] 10))))"
  by (simp add: gen_eval)

text \<open>
  C1, amended. The bounds are the minimum and the maximum of the coordinates of all
  points of the result, the start point at the origin included; the width and the height
  are the differences of the extrema; when no character of the text emits a point the
  bounds are the box of size zero at the origin.
\<close>

theorem bounds_over_all_points:
  "bounds_minX (bounds (generatePathData text L)) = Min (point_x ` set (points (generatePathData text L)))
   \<and> bounds_maxX (bounds (generatePathData text L)) = Max (point_x ` set (points (generatePathData text L)))
   \<and> bounds_minY (bounds (generatePathData text L)) = Min (point_y ` set (points (generatePathData text L)))
   \<and> bounds_maxY (bounds (generatePathData text L)) = Max (point_y ` set (points (generatePathData text L)))
   \<and> bounds_width (bounds (generatePathData text L))
       = bounds_maxX (bounds (generatePathData text L)) - bounds_minX (bounds (generatePathData text L))
   \<and> bounds_height (bounds (generatePathData text L))
       = bounds_maxY (bounds (generatePathData text L)) - bounds_minY (bounds (generatePathData text L))
   \<and> ((\<forall>ch \<in> set (codePoints text). \<not> emits ch) \<longrightarrow>
        bounds (generatePathData text L)
          = \<lparr>bounds_minX = 0, bounds_maxX = 0, bounds_minY = 0, bounds_maxY = 0,
             bounds_width = 0, bounds_height = 0\<rparr>)"
proof -
  have "genLoop L text = genInit" if "\<forall>ch \<in> set (codePoints text). \<not> emits ch"
    using that by (simp add: genLoop_def foldl_genStep_skips)
  then have "(\<forall>ch \<in> set (codePoints text). \<not> emits ch) \<longrightarrow>
        bounds (generatePathData text L)
          = \<lparr>bounds_minX = 0, bounds_maxX = 0, bounds_minY = 0, bounds_maxY = 0,
             bounds_width = 0, bounds_height = 0\<rparr>"
    by (simp add: generatePathData_def Let_def genInit_def)
  then show ?thesis
    using genLoop_extrema [of L "text"]
    by (simp add: generatePathData_def Let_def)
qed

theorem bounds_over_all_points_witness:
  "filter emits (codePoints [0x31, 0x2D, 0x32]) = []
   \<and> bounds (generatePathData [0x31, 0x2D, 0x32] 10)
          = \<lparr>bounds_minX = 0, bounds_maxX = 0, bounds_minY = 0, bounds_maxY = 0,
             bounds_width = 0, bounds_height = 0\<rparr>
   \<and> bounds_maxX (bounds (generatePathData [0x41, 0x20] 10))
          = Max (point_x ` set (points (generatePathData [0x41, 0x20] 10)))
   \<and> bounds_maxX (bounds (generatePathData [0x41, 0x20] 10)) = 20"
proof -
  have h: "\<forall>ch \<in> set (codePoints [0x31, 0x2D, 0x32]). \<not> emits ch"
    by (simp add: emits_def gen_eval)
  have e: "filter emits (codePoints [0x31, 0x2D, 0x32]) = []"
    by (simp add: emits_def gen_eval)
  have m: "bounds_maxX (bounds (generatePathData [0x41, 0x20] 10)) = 20"
    by (simp add: gen_eval)
  show ?thesis
    using h e m bounds_over_all_points [of "[0x31, 0x2D, 0x32]" 10]
      bounds_over_all_points [of "[0x41, 0x20]" 10]
    by blast
qed

text \<open>
  C4. The text that consists of the one character U+00DF has no valid character, so the
  claim gives it one point; \<open>generatePathData\<close> returns two, for every segment length.
\<close>

theorem points_length_eszett:
  "length (points (generatePathData [0xDF] L)) = 2
   \<and> 1 + length (filter spec_valid (codePoints [0xDF])) = 1"
  by (simp add: gen_eval spec_valid_def)

text \<open>
  C7. Let \<open>s\<close> be the state of the loop after the text \<open>pre\<close>. After one more space the
  heading is that of \<open>s\<close>, the position is the position of \<open>s\<close> moved by the segment length
  along that heading (\<open>dx = L cos \<theta>\<close>, \<open>dy = - L sin \<theta>\<close>), the path has one more command, a
  move to that position, and the points have one more record, at that position, with the
  space as its character, the heading of \<open>s\<close> as its angle and \<open>isSpace\<close> true. The loop
  goes on from this state with the characters after the space.
\<close>

theorem space_step:
  "(let s = genLoop L pre;
        nx = currentX s + L * cos (currentAngle s * pi / 180);
        ny = currentY s - L * sin (currentAngle s * pi / 180);
        s' = genLoop L (pre @ SPACE)
    in currentAngle s' = currentAngle s
       \<and> currentX s' = nx \<and> currentY s' = ny
       \<and> pathD s' = pathD s @ [MoveTo nx ny]
       \<and> calculatedPoints s' = calculatedPoints s @
            [\<lparr>point_x = nx, point_y = ny, point_char = SPACE,
              point_angle = currentAngle s, point_isSpace = True\<rparr>]
       \<and> genLoop L (pre @ SPACE @ post) = foldl (genStep L) s' (codePoints post))"
proof -
  have sp: "\<not> isHighSurrogate 0x20" "\<not> isLowSurrogate 0x20"
    by (simp_all add: isHighSurrogate_def isLowSurrogate_def)
  have 1: "codePoints (pre @ SPACE @ post) = codePoints pre @ SPACE # codePoints post" for post
    using codePoints_split [OF sp, of pre post] by (simp add: SPACE_def)
  have 2: "genLoop L (pre @ SPACE @ post)
             = foldl (genStep L) (genStep L (genLoop L pre) SPACE) (codePoints post)" for post
    by (simp only: genLoop_def 1 foldl_append foldl_Cons)
  have 3: "genLoop L (pre @ SPACE) = genStep L (genLoop L pre) SPACE"
    using 2 [of "[]"] by simp
  show ?thesis
    unfolding Let_def 3 2 genStep_space
    by (simp add: genEmit_def calculateNextPoint_def Let_def)
qed

text \<open>
  C10. When the upper-cased form of a character begins with a code unit \<open>u\<close> from 65 to 90,
  whatever the character is, \<open>getDegreeForChar\<close> returns the angle of the letter \<open>u\<close>, and
  the loop body adds that angle to the heading and emits a point. An example is the
  character U+00DF, which is neither a space nor a letter from A to Z and whose
  upper-cased form is SS.
\<close>

theorem upper_initial_letter_emits:
  assumes "toUpperCase ch = u # rest" "0x41 \<le> u" "u \<le> 0x5A"
  shows "\<exists>d. getDegreeForChar ch = Some d \<and> getDegreeForChar [u] = Some d
           \<and> genStep L s ch = genEmit L s ch False (currentAngle s + d)
           \<and> currentAngle (genStep L s ch) = currentAngle s + d
           \<and> length (calculatedPoints (genStep L s ch)) = Suc (length (calculatedPoints s))"
proof -
  let ?d = "real_of_int ((int (unat u - 65) * 720 + 26) div 52)"
  have 1: "getDegreeForChar ch = Some ?d"
    using getDegree_of_upper [OF assms] .
  have 2: "getDegreeForChar [u] = Some ?d"
    using getDegree_of_upper [OF toUpperCase_capital [OF assms(2,3)] assms(2,3)] .
  have "toUpperCase SPACE = [0x20]"
    by (simp add: SPACE_def toUpperCase_def toUpperCaseChar_def)
  then have 3: "ch \<noteq> SPACE"
    using assms by auto
  have 4: "genStep L s ch = genEmit L s ch False (currentAngle s + ?d)"
    using 1 3 by (simp add: genStep_def)
  have 5: "currentAngle (genEmit L s ch False (currentAngle s + ?d)) = currentAngle s + ?d"
    by (simp add: genEmit_def Let_def)
  show ?thesis
    using 1 2 4 5 genEmit_points_length [of L s ch False "currentAngle s + ?d"] by simp
qed

theorem upper_initial_letter_emits_witness:
  "toUpperCase [0xDF] = [0x53, 0x53] \<and> (0x41 :: 16 word) \<le> 0x53 \<and> (0x53 :: 16 word) \<le> 0x5A
   \<and> \<not> spec_valid [0xDF]
   \<and> getDegreeForChar [0xDF] = Some 249 \<and> getDegreeForChar [0x53] = Some 249
   \<and> currentAngle (genStep 10 genInit [0xDF]) = 249
   \<and> length (calculatedPoints (genStep 10 genInit [0xDF])) = 2"
proof -
  have h: "toUpperCase [0xDF] = [0x53, 0x53]"
    by (simp add: toUpperCase_def toUpperCaseChar_def)
  have d: "getDegreeForChar [0x53] = Some 249"
    by (simp add: gen_eval)
  have v: "\<not> spec_valid [0xDF]"
    by (simp add: spec_valid_def)
  show ?thesis
    using h d v upper_initial_letter_emits [of "[0xDF]" "0x53" "[0x53]" 10 genInit]
    by (auto simp add: genInit_def)
qed

section \<open>Properties of the camera\<close>

text \<open>
  C2, as stated, fails. From the view rectangle (-50, -50, 100, 100) a wheel zoom in
  followed by a wheel zoom out gives (-49.5, -49.5, 99, 99), and the two buttons give
  (-48, -48, 96, 96): the width differs from 100 by 1 and by 4.
\<close>

theorem zoom_round_trip_counterexample:
  "viewBox canvasInit = \<lparr>vb_x = -50, vb_y = -50, vb_w = 100, vb_h = 100\<rparr>
   \<and> viewBox (handleWheel 1 (handleWheel (-1) canvasInit))
        = \<lparr>vb_x = -49.5, vb_y = -49.5, vb_w = 99, vb_h = 99\<rparr>
   \<and> viewBox (zoomOutClick (zoomInClick canvasInit))
        = \<lparr>vb_x = -48, vb_y = -48, vb_w = 96, vb_h = 96\<rparr>
   \<and> \<bar>vb_w (viewBox (handleWheel 1 (handleWheel (-1) canvasInit))) - vb_w (viewBox canvasInit)\<bar> = 1
   \<and> \<bar>vb_w (viewBox (zoomOutClick (zoomInClick canvasInit))) - vb_w (viewBox canvasInit)\<bar> = 4"
  by (simp add: canvasInit_def handleWheel_def zoomInClick_def zoomOutClick_def Let_def)

text \<open>
  C2, amended. A zoom in followed by the paired zoom out keeps the centre of the view
  rectangle and multiplies its width and height by 0.99 (wheel, 0.9 then 1.1) or by 0.96
  (buttons, 0.8 then 1.2).
\<close>

theorem zoom_in_out_scales:
  assumes "\<not> dIn > 0" "dOut > 0"
  shows "(let v = viewBox c;
              w = viewBox (handleWheel dOut (handleWheel dIn c));
              b = viewBox (zoomOutClick (zoomInClick c))
          in vb_w w = 0.99 * vb_w v \<and> vb_h w = 0.99 * vb_h v
             \<and> vb_x w + vb_w w / 2 = vb_x v + vb_w v / 2
             \<and> vb_y w + vb_h w / 2 = vb_y v + vb_h v / 2
             \<and> vb_w b = 0.96 * vb_w v \<and> vb_h b = 0.96 * vb_h v
             \<and> vb_x b + vb_w b / 2 = vb_x v + vb_w v / 2
             \<and> vb_y b + vb_h b / 2 = vb_y v + vb_h v / 2)"
  using assms
  by (simp add: handleWheel_def zoomInClick_def zoomOutClick_def Let_def field_simps)

theorem zoom_in_out_scales_witness:
  "\<not> (-1 :: real) > 0 \<and> (1 :: real) > 0
   \<and> vb_w (viewBox (handleWheel 1 (handleWheel (-1) canvasInit))) = 0.99 * 100
   \<and> vb_x (viewBox (handleWheel 1 (handleWheel (-1) canvasInit)))
        + vb_w (viewBox (handleWheel 1 (handleWheel (-1) canvasInit))) / 2 = 0
   \<and> vb_w (viewBox (zoomOutClick (zoomInClick canvasInit))) = 0.96 * 100"
  using zoom_in_out_scales [of "-1" 1 canvasInit]
  by (simp add: Let_def canvasInit_def)

text \<open>
  C8. A pointer-down on button 1 or 2, or on button 0 with Alt, starts a pan: it keeps
  the view rectangle and stores it, with the pointer position, as the snapshot. In a
  canvas state with a snapshot, and while the \<open>svg\<close> element has a bounding rectangle of
  positive size, a pointer-move sets the origin of the view rectangle from the snapshot
  and the pointer displacement, makes the width and the height those of the snapshot,
  changes nothing else of the canvas state and moves no layer. After a move to any
  position, a move by \<open>(dx, dy)\<close> followed by a move by \<open>(-dx, -dy)\<close> gives the same state
  again; when the view rectangle is still the snapshot, the same two moves from the
  start position of the pan give the state before them.
\<close>

theorem pan_moves:
  assumes "panState c = Some ps"
      and "0 < rect_width sv" "0 < rect_height sv"
  shows "(let m = (\<lambda>px py c. fst (handleGlobalMouseMove px py (Some sv) c));
              v0 = startViewBox ps;
              c2 = m px py c;
              c1 = handleMouseDown button altKey X Y c0
          in vb_w (viewBox c2) = vb_w v0 \<and> vb_h (viewBox c2) = vb_h v0
             \<and> vb_x (viewBox c2) = vb_x v0 - (px - pan_startX ps) * (vb_w v0 / rect_width sv)
             \<and> vb_y (viewBox c2) = vb_y v0 - (py - pan_startY ps) * (vb_h v0 / rect_height sv)
             \<and> c2 = c\<lparr>viewBox := viewBox c2\<rparr>
             \<and> snd (handleGlobalMouseMove px py (Some sv) c) = None
             \<and> m (px + dx - dx) (py + dy - dy) (m (px + dx) (py + dy) c2) = c2
             \<and> (viewBox c = v0 \<longrightarrow>
                   m (pan_startX ps + dx - dx) (pan_startY ps + dy - dy)
                     (m (pan_startX ps + dx) (pan_startY ps + dy) c) = c)
             \<and> (button = 1 \<or> button = 2 \<or> (button = 0 \<and> altKey) \<longrightarrow>
                   viewBox c1 = viewBox c0
                   \<and> panState c1
                       = Some \<lparr>pan_startX = X, pan_startY = Y, startViewBox = viewBox c0\<rparr>))"
  using assms(1)
  by (simp add: handleMouseDown_def handleGlobalMouseMove_def Let_def)

theorem pan_moves_witness:
  "(let c1 = handleMouseDown 2 False 300 200 canvasInit;
        sv = \<lparr>rect_width = 800, rect_height = 400, ctm = None\<rparr>;
        c2 = fst (handleGlobalMouseMove 340 190 (Some sv) c1);
        c3 = fst (handleGlobalMouseMove 300 200 (Some sv) c2)
    in panState c1 = Some \<lparr>pan_startX = 300, pan_startY = 200, startViewBox = viewBox canvasInit\<rparr>
       \<and> viewBox c2 = \<lparr>vb_x = -55, vb_y = -47.5, vb_w = 100, vb_h = 100\<rparr>
       \<and> c3 = c1 \<and> viewBox c3 = viewBox canvasInit)"
proof -
  let ?sv = "\<lparr>rect_width = 800, rect_height = 400, ctm = None\<rparr>"
  let ?c1 = "handleMouseDown 2 False 300 200 canvasInit"
  let ?ps = "\<lparr>pan_startX = 300, pan_startY = 200, startViewBox = viewBox canvasInit\<rparr>"
  have p: "panState ?c1 = Some ?ps"
    by (simp add: handleMouseDown_def)
  have w: "0 < rect_width ?sv" and h: "0 < rect_height ?sv"
    by simp_all
  have v: "viewBox ?c1 = viewBox canvasInit"
    by (simp add: handleMouseDown_def)
  show ?thesis
    using p v pan_moves [OF p w h, of 340 190 2 False 300 200 canvasInit 40 "-10"]
    by (simp add: Let_def canvasInit_def)
qed

section \<open>Properties of the loop\<close>

lemma stopLoop_eq: "stopLoop a = a\<lparr>isLooping := False, loopIntervalRef := None\<rparr>"
  by (cases "loopIntervalRef a") (simp_all add: stopLoop_def Let_def)

lemma ticks_empty_seed: "loopSeedRef a = [] \<Longrightarrow> ticks n a = a"
  by (induction n) (simp_all add: loopTick_def Let_def)

lemma timerRuns_not_looping: "\<not> isLooping a \<Longrightarrow> timerRuns n a = a"
  by (induction n) (simp_all add: timerFires_def)

text \<open>
  C6. The loop is started with the button "Play Loop", which is rendered when there is
  an active layer and no loop runs, and is disabled when the active layer's text is
  empty. In such a state with an empty text a click on the button is refused: the whole
  state is as before, in particular the looping flag, the seed, the cursor and the
  layers. No interval is installed, so that the timer appends nothing, however long one
  waits; and a callback that finds an empty seed returns at once.
\<close>

theorem empty_seed_refused:
  assumes "activeLayer a = Some al" "layer_text al = []" "\<not> isLooping a"
  shows "loopButtonClick a = a
       \<and> isLooping (loopButtonClick a) = isLooping a
       \<and> loopSeedRef (loopButtonClick a) = loopSeedRef a
       \<and> loopIndexRef (loopButtonClick a) = loopIndexRef a
       \<and> loopIntervalRef (loopButtonClick a) = loopIntervalRef a
       \<and> layers (loopButtonClick a) = layers a
       \<and> timerRuns n (loopButtonClick a) = a
       \<and> layers (timerRuns n (loopButtonClick a)) = layers a
       \<and> ticks n (b\<lparr>loopSeedRef := []\<rparr>) = b\<lparr>loopSeedRef := []\<rparr>"
proof -
  have 1: "loopButtonClick a = a"
    using assms by (simp add: loopButtonClick_def)
  have 2: "timerRuns n a = a"
    using assms(3) by (rule timerRuns_not_looping)
  have 3: "ticks n (b\<lparr>loopSeedRef := []\<rparr>) = b\<lparr>loopSeedRef := []\<rparr>"
    by (rule ticks_empty_seed) simp
  show ?thesis
    using 2 3 by (simp add: 1)
qed

theorem empty_seed_refused_witness:
  "(let a = appInit\<lparr>layers := [baseLayer\<lparr>layer_text := []\<rparr>], loopSeedRef := [0x41, 0x42],
                    loopIndexRef := 5\<rparr>
    in activeLayer a = Some (baseLayer\<lparr>layer_text := []\<rparr>)
       \<and> isLooping (loopButtonClick a) = False
       \<and> loopSeedRef (loopButtonClick a) = [0x41, 0x42]
       \<and> loopIndexRef (loopButtonClick a) = 5
       \<and> layers (timerRuns 3 (loopButtonClick a)) = [baseLayer\<lparr>layer_text := []\<rparr>])"
proof -
  let ?a = "appInit\<lparr>layers := [baseLayer\<lparr>layer_text := []\<rparr>], loopSeedRef := [0x41, 0x42],
                    loopIndexRef := 5\<rparr>"
  have h: "activeLayer ?a = Some (baseLayer\<lparr>layer_text := []\<rparr>)"
    by (simp add: appInit_def baseLayer_def activeLayer_def)
  have t: "layer_text (baseLayer\<lparr>layer_text := []\<rparr>) = []"
    by simp
  have l: "\<not> isLooping ?a"
    by (simp add: appInit_def)
  note r = empty_seed_refused [OF h t l, of 3 ?a]
  have 1: "loopButtonClick ?a = ?a"
    using r by (rule conjunct1)
  have e: "timerRuns 3 (loopButtonClick ?a) = ?a"
    using r by blast
  have 2: "layers (timerRuns 3 (loopButtonClick ?a)) = [baseLayer\<lparr>layer_text := []\<rparr>]"
    unfolding e by simp
  have 3: "isLooping (loopButtonClick ?a) = False"
    unfolding 1 by (simp add: appInit_def)
  have 4: "loopSeedRef (loopButtonClick ?a) = [0x41, 0x42]"
    unfolding 1 by simp
  have 5: "loopIndexRef (loopButtonClick ?a) = 5"
    unfolding 1 by simp
  show ?thesis
    unfolding Let_def using h 2 3 4 5 by blast
qed

lemma loopTick_found:
  assumes "loopSeedRef a \<noteq> []"
      and "find (\<lambda>l. layer_id l = activeLayerId a) (layers a) = Some cl"
      and "newText = layer_text cl @ [loopSeedRef a ! (loopIndexRef a mod length (loopSeedRef a))]"
      and "r = generatePathData newText (layer_segmentLength cl)"
  shows "loopTick a =
     (if length newText > max (length (loopSeedRef a) * 4) 40
          \<and> sqrt ((fst (endPoint r))\<^sup>2 + (snd (endPoint r))\<^sup>2) < 0.5
      then a\<lparr>loopIndexRef := loopIndexRef a + 1, isLooping := False, loopIntervalRef := None,
             layers := map (\<lambda>l. if layer_id l = activeLayerId a
                                 then l\<lparr>layer_text := newText,
                                        layer_x := - (bounds_minX (bounds r) + bounds_width (bounds r) / 2),
                                        layer_y := - (bounds_minY (bounds r) + bounds_height (bounds r) / 2)\<rparr>
                                 else l) (layers a)\<rparr>
      else if length newText > 8000
      then a\<lparr>loopIndexRef := loopIndexRef a + 1, isLooping := False, loopIntervalRef := None,
             layers := map (\<lambda>l. if layer_id l = activeLayerId a
                                 then l\<lparr>layer_text := newText\<rparr> else l) (layers a)\<rparr>
      else a\<lparr>loopIndexRef := loopIndexRef a + 1,
             layers := map (\<lambda>l. if layer_id l = activeLayerId a
                                 then l\<lparr>layer_text := newText\<rparr> else l) (layers a)\<rparr>)"
  unfolding loopTick_def Let_def stopLoop_eq assms(3,4)
  using assms(1,2) by simp

lemma bounds_centre:
  "bounds_minX (bounds (generatePathData t L)) + bounds_width (bounds (generatePathData t L)) / 2
     = (bounds_minX (bounds (generatePathData t L)) + bounds_maxX (bounds (generatePathData t L))) / 2"
  "bounds_minY (bounds (generatePathData t L)) + bounds_height (bounds (generatePathData t L)) / 2
     = (bounds_minY (bounds (generatePathData t L)) + bounds_maxY (bounds (generatePathData t L))) / 2"
  by (simp_all add: generatePathData_def Let_def field_simps)

text \<open>
  C3. Take a firing of the timer with a seed that is not empty and an active layer that
  is found; it appends the seed's next character to the layer's text. Let \<open>closed\<close> say
  that the new text is longer than \<open>max (4 * length seed) 40\<close> and that the end point of
  the new path is less than 0.5 away from the origin. When \<open>closed\<close> holds, the loop stops
  (the looping flag is off and the interval is cleared) and the active layer gets the new
  text and the position minus the centre of the new path's bounding box. When it does
  not hold, the layer gets the new text only and keeps its position; the loop stops when
  the new text is longer than 8000 and runs on otherwise. With a seed of two characters
  \<open>closed\<close> does not hold, and the loop runs on, while the new text has at most 40
  characters. The cursor advances by one in every case.
\<close>

theorem loopTick_stops:
  assumes "loopSeedRef a \<noteq> []"
      and "find (\<lambda>l. layer_id l = activeLayerId a) (layers a) = Some cl"
  shows "(let seed = loopSeedRef a;
              newText = layer_text cl @ [seed ! (loopIndexRef a mod length seed)];
              r = generatePathData newText (layer_segmentLength cl);
              dist = sqrt ((fst (endPoint r))\<^sup>2 + (snd (endPoint r))\<^sup>2);
              closed = (length newText > max (4 * length seed) 40 \<and> dist < 0.5);
              cx = (bounds_minX (bounds r) + bounds_maxX (bounds r)) / 2;
              cy = (bounds_minY (bounds r) + bounds_maxY (bounds r)) / 2;
              a' = loopTick a
          in loopIndexRef a' = loopIndexRef a + 1
             \<and> (closed \<longrightarrow>
                   \<not> isLooping a' \<and> loopIntervalRef a' = None
                   \<and> layers a' = map (\<lambda>l. if layer_id l = activeLayerId a
                                            then l\<lparr>layer_text := newText, layer_x := - cx,
                                                   layer_y := - cy\<rparr>
                                            else l) (layers a))
             \<and> (\<not> closed \<longrightarrow>
                   layers a' = map (\<lambda>l. if layer_id l = activeLayerId a
                                          then l\<lparr>layer_text := newText\<rparr> else l) (layers a)
                   \<and> (length newText > 8000 \<longrightarrow> \<not> isLooping a' \<and> loopIntervalRef a' = None)
                   \<and> (\<not> length newText > 8000 \<longrightarrow>
                         isLooping a' = isLooping a \<and> loopIntervalRef a' = loopIntervalRef a))
             \<and> (length seed = 2 \<and> length newText \<le> 40 \<longrightarrow>
                   \<not> closed \<and> isLooping a' = isLooping a
                   \<and> loopIntervalRef a' = loopIntervalRef a))"
proof -
  define newText where
    "newText = layer_text cl @ [loopSeedRef a ! (loopIndexRef a mod length (loopSeedRef a))]"
  define r where "r = generatePathData newText (layer_segmentLength cl)"
  define closed where
    "closed \<longleftrightarrow> length newText > max (4 * length (loopSeedRef a)) 40
                  \<and> sqrt ((fst (endPoint r))\<^sup>2 + (snd (endPoint r))\<^sup>2) < 0.5"
  have m: "max (length (loopSeedRef a) * 4) 40 = max (4 * length (loopSeedRef a)) 40"
    by (simp add: mult.commute)
  note t = loopTick_found [OF assms newText_def r_def, unfolded m closed_def [symmetric]
      bounds_centre [of newText "layer_segmentLength cl", folded r_def]]
  have 1: "loopIndexRef (loopTick a) = loopIndexRef a + 1"
    by (simp add: t)
  have 2: "\<not> isLooping (loopTick a) \<and> loopIntervalRef (loopTick a) = None
        \<and> layers (loopTick a) = map (\<lambda>l. if layer_id l = activeLayerId a
             then l\<lparr>layer_text := newText,
                    layer_x := - ((bounds_minX (bounds r) + bounds_maxX (bounds r)) / 2),
                    layer_y := - ((bounds_minY (bounds r) + bounds_maxY (bounds r)) / 2)\<rparr>
             else l) (layers a)" if closed
    using that by (simp add: t)
  have 3: "layers (loopTick a) = map (\<lambda>l. if layer_id l = activeLayerId a
                                          then l\<lparr>layer_text := newText\<rparr> else l) (layers a)
        \<and> (length newText > 8000 \<longrightarrow> \<not> isLooping (loopTick a) \<and> loopIntervalRef (loopTick a) = None)
        \<and> (\<not> length newText > 8000 \<longrightarrow>
              isLooping (loopTick a) = isLooping a \<and> loopIntervalRef (loopTick a) = loopIntervalRef a)"
    if "\<not> closed"
    using that by (simp add: t)
  have 4: "\<not> closed" if "length (loopSeedRef a) = 2 \<and> length newText \<le> 40"
    using that by (simp add: closed_def)
  have 5: "isLooping (loopTick a) = isLooping a \<and> loopIntervalRef (loopTick a) = loopIntervalRef a"
    if "length (loopSeedRef a) = 2 \<and> length newText \<le> 40"
  proof -
    have "\<not> length newText > 8000"
      using that by simp
    then show ?thesis
      using 3 [OF 4 [OF that]] by blast
  qed
  show ?thesis
    unfolding Let_def newText_def [symmetric] r_def [symmetric] closed_def [symmetric]
    using 1 2 3 4 5 by blast
qed

theorem loopTick_stops_witness:
  "(let a = appInit\<lparr>layers := [baseLayer\<lparr>layer_text := replicate 40 0x31, layer_x := 3, layer_y := 4\<rparr>],
                    isLooping := True, loopIntervalRef := Some 7,
                    loopSeedRef := [0x31], loopIndexRef := 40\<rparr>;
        b = appInit\<lparr>layers := [baseLayer\<lparr>layer_text := [0x41, 0x42]\<rparr>],
                    isLooping := True, loopIntervalRef := Some 7,
                    loopSeedRef := [0x41, 0x42], loopIndexRef := 0\<rparr>
    in loopSeedRef a \<noteq> []
       \<and> find (\<lambda>l. layer_id l = activeLayerId a) (layers a) = Some (hd (layers a))
       \<and> \<not> isLooping (loopTick a) \<and> loopIntervalRef (loopTick a) = None
       \<and> layers (loopTick a) = [baseLayer\<lparr>layer_text := replicate 41 0x31, layer_x := 0, layer_y := 0\<rparr>]
       \<and> isLooping (loopTick b) \<and> loopIntervalRef (loopTick b) = Some 7
       \<and> layers (loopTick b) = [baseLayer\<lparr>layer_text := [0x41, 0x42, 0x41]\<rparr>])"
proof -
  let ?la = "baseLayer\<lparr>layer_text := replicate 40 0x31, layer_x := 3, layer_y := 4\<rparr>"
  let ?a = "appInit\<lparr>layers := [?la], isLooping := True, loopIntervalRef := Some 7,
                    loopSeedRef := [0x31], loopIndexRef := 40\<rparr>"
  let ?lb = "baseLayer\<lparr>layer_text := [0x41, 0x42]\<rparr>"
  let ?b = "appInit\<lparr>layers := [?lb], isLooping := True, loopIntervalRef := Some 7,
                    loopSeedRef := [0x41, 0x42], loopIndexRef := 0\<rparr>"
  have sa: "loopSeedRef ?a \<noteq> []" and sb: "loopSeedRef ?b \<noteq> []"
    by simp_all
  have fa: "find (\<lambda>l. layer_id l = activeLayerId ?a) (layers ?a) = Some ?la"
    by (simp add: appInit_def baseLayer_def)
  have fb: "find (\<lambda>l. layer_id l = activeLayerId ?b) (layers ?b) = Some ?lb"
    by (simp add: appInit_def baseLayer_def)
  have g: "genLoop 10 (replicate 41 0x31) = genInit"
    by (rule genLoop_no_emit) (simp add: spec_valid_def)
  have r: "generatePathData (replicate 41 0x31) 10
             = \<lparr>pathData = [MoveTo 0 0],
                points = [\<lparr>point_x = 0, point_y = 0, point_char = [], point_angle = 0,
                           point_isSpace = False\<rparr>],
                endPoint = (0, 0),
                bounds = \<lparr>bounds_minX = 0, bounds_maxX = 0, bounds_minY = 0, bounds_maxY = 0,
                          bounds_width = 0, bounds_height = 0\<rparr>\<rparr>"
    by (simp add: generatePathData_def g Let_def) (simp add: genInit_def)
  have "(41 :: nat) = Suc 40"
    by simp
  then have rep: "replicate 40 (0x31 :: 16 word) @ [0x31] = replicate 41 0x31"
    by (simp only: replicate_append_same replicate_Suc)
  have ta: "\<not> isLooping (loopTick ?a) \<and> loopIntervalRef (loopTick ?a) = None
       \<and> layers (loopTick ?a) = [baseLayer\<lparr>layer_text := replicate 41 0x31, layer_x := 0, layer_y := 0\<rparr>]"
    using loopTick_stops [OF sa fa]
    by (simp add: Let_def rep r DEFAULT_SEGMENT_LENGTH_def baseLayer_def appInit_def)
  have tb: "isLooping (loopTick ?b) \<and> loopIntervalRef (loopTick ?b) = Some 7
       \<and> layers (loopTick ?b) = [baseLayer\<lparr>layer_text := [0x41, 0x42, 0x41]\<rparr>]"
    using loopTick_stops [OF sb fb]
    by (simp add: Let_def baseLayer_def appInit_def)
  show ?thesis
    unfolding Let_def using sa fa ta tb by simp
qed

end
